theory Spec2Isabelle
  imports Main
begin

section \<open>ZeroSight: the link classifier of app.py\<close>

text \<open>
  Python strings are modelled as \<open>string\<close>; a \<open>char\<close> stands for the code point of the
  same number, so the strings of the model are the Python strings over code points 0..255.
  Exceptions are values of \<open>py_exn\<close>, and a function that can raise returns
  \<open>py_exn + 'a\<close> with \<open>Inl\<close> for the exception.
\<close>

datatype py_exn = ValueError | IndexError | AttributeError

subsection \<open>The string operations of Python that app.py uses\<close>

definition is_digit :: "char \<Rightarrow> bool" where
  \<comment> \<open>\<open>\d\<close> of \<open>re\<close> on str: the decimal digits; below 256 these are 0..9\<close>
  "is_digit c = (48 \<le> (of_char c :: nat) \<and> (of_char c :: nat) \<le> 57)"

definition is_space :: "char \<Rightarrow> bool" where
  \<comment> \<open>\<open>str.isspace\<close>, the characters \<open>str.strip()\<close> removes\<close>
  "is_space c = (let n = (of_char c :: nat) in
     (9 \<le> n \<and> n \<le> 13) \<or> (28 \<le> n \<and> n \<le> 32) \<or> n = 133 \<or> n = 160)"

definition is_word :: "char \<Rightarrow> bool" where
  \<comment> \<open>\<open>\w\<close> of \<open>re\<close> on str: \<open>str.isalnum\<close> or underscore\<close>
  "is_word c = (let n = (of_char c :: nat) in
     (48 \<le> n \<and> n \<le> 57) \<or> (65 \<le> n \<and> n \<le> 90) \<or> n = 95 \<or> (97 \<le> n \<and> n \<le> 122) \<or>
     n = 170 \<or> n = 178 \<or> n = 179 \<or> n = 181 \<or> n = 185 \<or> n = 186 \<or>
     (188 \<le> n \<and> n \<le> 190) \<or> (192 \<le> n \<and> n \<le> 214) \<or> (216 \<le> n \<and> n \<le> 246) \<or>
     (248 \<le> n \<and> n \<le> 255))"

definition lower_char :: "char \<Rightarrow> char" where
  "lower_char c = (let n = (of_char c :: nat) in
     if (65 \<le> n \<and> n \<le> 90) \<or> (192 \<le> n \<and> n \<le> 222 \<and> n \<noteq> 215)
     then char_of (n + 32) else c)"

definition lower :: "string \<Rightarrow> string" where
  \<comment> \<open>\<open>str.lower()\<close>\<close>
  "lower s = map lower_char s"

definition strip :: "string \<Rightarrow> string" where
  \<comment> \<open>\<open>str.strip()\<close>\<close>
  "strip s = rev (dropWhile is_space (rev (dropWhile is_space s)))"

fun startswith :: "string \<Rightarrow> string \<Rightarrow> bool" where
  \<comment> \<open>\<open>s.startswith(p)\<close>\<close>
  "startswith s [] = True"
| "startswith [] (p # ps) = False"
| "startswith (c # cs) (p # ps) = (c = p \<and> startswith cs ps)"

definition endswith :: "string \<Rightarrow> string \<Rightarrow> bool" where
  \<comment> \<open>\<open>s.endswith(p)\<close>\<close>
  "endswith s p = startswith (rev s) (rev p)"

fun contains :: "string \<Rightarrow> string \<Rightarrow> bool" where
  \<comment> \<open>\<open>p in s\<close>\<close>
  "contains [] p = (p = [])"
| "contains (c # cs) p = (startswith (c # cs) p \<or> contains cs p)"

fun split_where :: "(char \<Rightarrow> bool) \<Rightarrow> string \<Rightarrow> string list" where
  \<comment> \<open>split at every separator character, keeping the empty pieces\<close>
  "split_where P [] = [[]]"
| "split_where P (c # cs) =
     (if P c then [] # split_where P cs
      else (case split_where P cs of
              [] \<Rightarrow> [[c]]
            | w # ws \<Rightarrow> (c # w) # ws))"

definition split :: "string \<Rightarrow> char \<Rightarrow> string list" where
  \<comment> \<open>\<open>s.split(sep)\<close> for a separator of one character\<close>
  "split s sep = split_where (\<lambda>c. c = sep) s"

fun join :: "string \<Rightarrow> string list \<Rightarrow> string" where
  \<comment> \<open>\<open>sep.join(xs)\<close>\<close>
  "join sep [] = []"
| "join sep [x] = x"
| "join sep (x # y # ys) = x @ sep @ join sep (y # ys)"

definition count_char :: "string \<Rightarrow> char \<Rightarrow> nat" where
  \<comment> \<open>\<open>s.count(c)\<close> for a string of one character\<close>
  "count_char s c = length (filter (\<lambda>x. x = c) s)"

definition getitem :: "'a list \<Rightarrow> int \<Rightarrow> py_exn + 'a" where
  \<comment> \<open>\<open>xs[i]\<close>: an index from \<open>-len(xs)\<close> to \<open>len(xs) - 1\<close>, the negative
      ones counted from the end; anything else raises\<close>
  "getitem xs i =
     (if 0 \<le> i \<and> i < int (length xs) then Inr (xs ! nat i)
      else if i < 0 \<and> - int (length xs) \<le> i then Inr (xs ! nat (int (length xs) + i))
      else Inl IndexError)"

definition drop_last2 :: "'a list \<Rightarrow> 'a list" where
  \<comment> \<open>the slice \<open>xs[:-2]\<close>\<close>
  "drop_last2 xs = take (length xs - 2) xs"

subsection \<open>The two regular expressions\<close>

text \<open>
  \<open>IP_RE = re.compile(r"\b\d{1,3}(?:\.\d{1,3}){3}\b")\<close>. \<open>digits_upto n s\<close> lists what
  is left of \<open>s\<close> after each way of reading between one and \<open>n\<close> digits; a search succeeds when
  some position and some choice of the four digit groups match, with a word boundary on
  both sides. The groups start and end with a digit, a word character, so the boundary
  before holds at the start of the string or after a non-word character, and the boundary
  after at the end of the string or before a non-word character.
\<close>

fun digits_upto :: "nat \<Rightarrow> string \<Rightarrow> string list" where
  "digits_upto 0 s = []"
| "digits_upto (Suc n) [] = []"
| "digits_upto (Suc n) (c # cs) = (if is_digit c then cs # digits_upto n cs else [])"

definition dot_digits :: "string \<Rightarrow> string list" where
  \<comment> \<open>one group \<open>(?:\.\d{1,3})\<close>\<close>
  "dot_digits s = (case s of [] \<Rightarrow> [] | c # cs \<Rightarrow> if c = CHR ''.'' then digits_upto 3 cs else [])"

definition boundary_after :: "string \<Rightarrow> bool" where
  "boundary_after s = (case s of [] \<Rightarrow> True | c # cs \<Rightarrow> \<not> is_word c)"

definition ip_match_here :: "string \<Rightarrow> bool" where
  "ip_match_here s =
     list_ex boundary_after
       (concat (map dot_digits (concat (map dot_digits (concat (map dot_digits (digits_upto 3 s)))))))"

fun ip_search_from :: "char option \<Rightarrow> string \<Rightarrow> bool" where
  \<comment> \<open>the first argument is the character before the position, if any\<close>
  "ip_search_from prev [] = False"
| "ip_search_from prev (c # cs) =
     (((case prev of None \<Rightarrow> True | Some p \<Rightarrow> \<not> is_word p) \<and> ip_match_here (c # cs))
      \<or> ip_search_from (Some c) cs)"

definition IP_RE_search :: "string \<Rightarrow> bool" where
  \<comment> \<open>\<open>IP_RE.search(s)\<close> finds a match\<close>
  "IP_RE_search s = ip_search_from None s"

fun port_search :: "string \<Rightarrow> bool" where
  \<comment> \<open>\<open>re.search(r":\d{2,5}", s)\<close> finds a match: a colon and two digits somewhere\<close>
  "port_search (a # b # c # cs) =
     ((a = CHR '':'' \<and> is_digit b \<and> is_digit c) \<or> port_search (b # c # cs))"
| "port_search s = False"

subsection \<open>urllib.parse.urlparse\<close>

text \<open>
  \<open>urlparse\<close> belongs to the Python library, not to the repository, and what it accepts
  has changed between Python versions. \<open>parse_hostname\<close> and \<open>classify_link\<close> therefore take
  it as the parameter \<open>up\<close>: \<open>up s\<close> is \<open>Inl e\<close> when \<open>urlparse(s)\<close> or reading
  \<open>.hostname\<close> raises \<open>e\<close>, and otherwise \<open>Inr\<close> of the \<open>hostname\<close> attribute
  (\<open>None\<close> or a string). The general theorems hold for every \<open>up\<close>.

  \<open>urlparse_hostname\<close> is the instance used on concrete links. It follows
  \<open>urlsplit\<close> and the \<open>hostname\<close> property of CPython 3.9.5 to 3.11.3: remove tab, carriage
  return and newline; split off a scheme; when \<open>//\<close> follows, the netloc runs to the first
  of \<open>/ ? #\<close>; a netloc with only one kind of square bracket raises ValueError; the
  host is what follows the last \<open>@\<close>, inside the brackets if there are any, else up to the
  first colon; it is lowercased up to a \<open>%\<close>, and empty gives None. The check of the
  netloc under NFKC normalisation is left out: no character below 256 normalises to one of
  \<open>/ ? # @ :\<close>, so on these strings it never raises. Every exception of the library is
  an \<open>Exception\<close>, so the \<open>except Exception\<close> of \<open>parse_hostname\<close> catches each \<open>Inl\<close>.
\<close>

definition scheme_char :: "char \<Rightarrow> bool" where
  "scheme_char c = (let n = (of_char c :: nat) in
     (97 \<le> n \<and> n \<le> 122) \<or> (65 \<le> n \<and> n \<le> 90) \<or> (48 \<le> n \<and> n \<le> 57) \<or>
     c = CHR ''+'' \<or> c = CHR ''-'' \<or> c = CHR ''.'')"

definition ascii_alpha :: "char \<Rightarrow> bool" where
  "ascii_alpha c = (let n = (of_char c :: nat) in
     (97 \<le> n \<and> n \<le> 122) \<or> (65 \<le> n \<and> n \<le> 90))"

definition drop_scheme :: "string \<Rightarrow> string" where
  \<comment> \<open>the url after its scheme and colon, when it has a scheme\<close>
  "drop_scheme s =
     (let pre = takeWhile (\<lambda>c. c \<noteq> CHR '':'') s
      in if length pre < length s \<and> pre \<noteq> [] \<and> ascii_alpha (hd pre) \<and> list_all scheme_char pre
         then drop (length pre + 1) s else s)"

definition rpartition_at :: "string \<Rightarrow> string" where
  \<comment> \<open>\<open>s.rpartition('@')[2]\<close>\<close>
  "rpartition_at s = rev (takeWhile (\<lambda>c. c \<noteq> CHR ''@'') (rev s))"

definition hostinfo_hostname :: "string \<Rightarrow> string" where
  \<comment> \<open>\<open>_hostinfo[0]\<close> of a netloc\<close>
  "hostinfo_hostname netloc =
     (let hostinfo = rpartition_at netloc
      in if CHR ''['' \<in> set hostinfo
         then takeWhile (\<lambda>c. c \<noteq> CHR '']'') (tl (dropWhile (\<lambda>c. c \<noteq> CHR ''['') hostinfo))
         else takeWhile (\<lambda>c. c \<noteq> CHR '':'') hostinfo)"

definition urlparse_hostname :: "string \<Rightarrow> py_exn + string option" where
  "urlparse_hostname s =
     (let s1 = filter (\<lambda>c. c \<noteq> CHR 0x09 \<and> c \<noteq> CHR 0x0D \<and> c \<noteq> CHR 0x0A) s;
          s2 = drop_scheme s1
      in if startswith s2 ''//''
         then
           (let netloc = takeWhile (\<lambda>c. c \<noteq> CHR ''/'' \<and> c \<noteq> CHR ''?'' \<and> c \<noteq> CHR ''#'') (drop 2 s2)
            in if (CHR ''['' \<in> set netloc \<and> CHR '']'' \<notin> set netloc) \<or>
                  (CHR '']'' \<in> set netloc \<and> CHR ''['' \<notin> set netloc)
               then Inl ValueError
               else
                 (let hostname = hostinfo_hostname netloc
                  in if hostname = [] then Inr None
                     else Inr (Some (lower (takeWhile (\<lambda>c. c \<noteq> CHR ''%'') hostname) @
                                      dropWhile (\<lambda>c. c \<noteq> CHR ''%'') hostname))))
         else Inr None)"

subsection \<open>Config / tunable lists\<close>


definition SUSPICIOUS_HOSTINGS :: "string list" where
  "SUSPICIOUS_HOSTINGS =
     [''trycloudflare.com'', ''workers.dev'', ''pages.dev'', ''vercel.app'',
      ''netlify.app'', ''ngrok.io'', ''herokuapp.com'', ''github.io'', ''pagekite.me'']"

definition BRAND_TOKENS :: "string list" where
  "BRAND_TOKENS =
     [''instagram'', ''paypal'', ''google'', ''facebook'', ''amazon'', ''microsoft'',
      ''sbi'', ''hdfc'', ''icici'', ''bank'', ''upi'', ''gmail'', ''otp'']"

definition SHORTENERS :: "string list" where
  "SHORTENERS = [''bit.ly'', ''tinyurl'', ''t.co'', ''is.gd'', ''rb.gy'', ''ow.ly'']"

definition PHISH_KEYWORDS :: "string list" where
  "PHISH_KEYWORDS =
     [''verify'', ''login'', ''reset'', ''auth'', ''secure'', ''confirm'', ''payment'',
      ''account'', ''signin'', ''password'', ''otp'']"

subsection \<open>Helpers\<close>

definition parse_hostname :: "(string \<Rightarrow> py_exn + string option) \<Rightarrow> string \<Rightarrow> py_exn + string" where
  "parse_hostname up u =
     (let s = strip u
      in if s = [] then Inr []
         else
           (case up (if contains s ''://'' then s else ''https://'' @ s) of
              Inr hostname \<Rightarrow> Inr (lower (case hostname of None \<Rightarrow> [] | Some h \<Rightarrow> h))
            | Inl e \<Rightarrow>
                (case getitem (split s (CHR ''/'')) 0 of
                   Inl e' \<Rightarrow> Inl e'
                 | Inr piece \<Rightarrow> Inr (lower piece))))"

subsection \<open>Core classifier\<close>

record result =
  url :: string
  host :: string
  score :: int
  level :: string
  reasons :: "string list"
  ts :: int

text \<open>
  The running \<open>score\<close> and \<open>reasons\<close> are a pair that each rule passes on;
  \<open>hit d r\<close> is \<open>score += d; reasons.append(r)\<close>.
\<close>

type_synonym tally = "int \<times> string list"

definition hit :: "int \<Rightarrow> string \<Rightarrow> tally \<Rightarrow> tally" where
  "hit d r st = (fst st + d, snd st @ [r])"

definition quoted :: "string \<Rightarrow> string" where
  \<comment> \<open>\<open>'{b}'\<close> inside an f-string\<close>
  "quoted b = [CHR 0x27] @ b @ [CHR 0x27]"

definition rule_ip :: "string \<Rightarrow> tally \<Rightarrow> tally" where
  "rule_ip h st =
     (if IP_RE_search h
      then hit 40 ''Direct IP address used in host (not a normal domain)'' st else st)"

definition rule_port :: "string \<Rightarrow> tally \<Rightarrow> tally" where
  "rule_port u st =
     (if port_search u
      then hit 12 ''Explicit port present in URL (uncommon for legitimate sites)'' st else st)"

fun rule_hosting :: "string list \<Rightarrow> string \<Rightarrow> tally \<Rightarrow> tally" where
  \<comment> \<open>the loop over SUSPICIOUS_HOSTINGS, left at the first match\<close>
  "rule_hosting [] h st = st"
| "rule_hosting (eh # ehs) h st =
     (if h = eh \<or> endswith h (''.'' @ eh)
      then hit 35 (''Hosted on ephemeral/third-party platform: '' @ eh) st
      else rule_hosting ehs h st)"

fun rule_brand :: "string list \<Rightarrow> string \<Rightarrow> string \<Rightarrow> tally \<Rightarrow> tally" where
  \<comment> \<open>the loop over BRAND_TOKENS, left at the first match\<close>
  "rule_brand [] low_sub sld st = st"
| "rule_brand (b # bs) low_sub sld st =
     (if contains low_sub b \<and> b \<noteq> sld
      then hit 40 (''Brand impersonation detected: '' @ quoted b @
                   '' appears in subdomain while parent domain is not '' @ quoted b) st
      else rule_brand bs low_sub sld st)"

definition is_sep :: "char \<Rightarrow> bool" where
  \<comment> \<open>the class \<open>[-_.]\<close>\<close>
  "is_sep c = (c = CHR ''-'' \<or> c = CHR ''_'' \<or> c = CHR ''.'')"

definition rule_subdomain :: "string \<Rightarrow> tally \<Rightarrow> py_exn + tally" where
  "rule_subdomain h st =
     (let labels = (if h \<noteq> [] then split h (CHR ''.'') else [])
      in if length labels \<ge> 3
         then
           (let sub = join ''.'' (drop_last2 labels);
                st1 = (if length sub > 30
                       then hit 15 ''Very long subdomain (unusually long host label)'' st else st);
                st2 = (if count_char sub (CHR ''-'') \<ge> 2
                       then hit 12 ''Multiple hyphens in subdomain (common in phishing hosts)'' st1
                       else st1);
                tokens = filter (\<lambda>t. t \<noteq> []) (split_where is_sep sub);
                st3 = (if length tokens \<ge> 3
                       then hit 18 ''Multi-word / token-rich subdomain (likely not a normal brand hostname)'' st2
                       else st2)
            in case (if length labels \<ge> 2 then getitem labels (- 2) else Inr []) of
                 Inl e \<Rightarrow> Inl e
               | Inr sld \<Rightarrow> Inr (rule_brand BRAND_TOKENS (lower sub) sld st3))
         else Inr st)"

definition rule_punycode :: "string \<Rightarrow> tally \<Rightarrow> tally" where
  "rule_punycode h st =
     (if contains h ''xn--''
      then hit 25 ''Punycode/IDN detected (possible homoglyph / homograph attack)'' st else st)"

fun rule_shortener :: "string list \<Rightarrow> string \<Rightarrow> tally \<Rightarrow> tally" where
  \<comment> \<open>the loop over SHORTENERS, left at the first match\<close>
  "rule_shortener [] u st = st"
| "rule_shortener (s # ss) u st =
     (if contains (lower u) s
      then hit 30 (''Uses known link shortener: '' @ s) st
      else rule_shortener ss u st)"

fun rule_keyword :: "string list \<Rightarrow> string \<Rightarrow> tally \<Rightarrow> tally" where
  \<comment> \<open>the loop over PHISH_KEYWORDS, left at the first match\<close>
  "rule_keyword [] u st = st"
| "rule_keyword (k # ks) u st =
     (if contains (lower u) k
      then hit 15 (''Contains phishing-related keyword: '' @ quoted k) st
      else rule_keyword ks u st)"

definition level_of :: "int \<Rightarrow> string" where
  \<comment> \<open>the if/elif after the clamp\<close>
  "level_of s = (if s \<ge> 70 then ''HIGH'' else if s \<ge> 35 then ''MEDIUM'' else ''SAFE'')"

definition classify_link ::
  "(string \<Rightarrow> py_exn + string option) \<Rightarrow> int \<Rightarrow> string \<Rightarrow> py_exn + result" where
  \<comment> \<open>\<open>now\<close> is what \<open>now_ts()\<close> reads from the clock\<close>
  "classify_link up now u =
     (case parse_hostname up u of
        Inl e \<Rightarrow> Inl e
      | Inr h \<Rightarrow>
          (let st1 = rule_ip h (0, []);
               st2 = rule_port u st1;
               st3 = rule_hosting SUSPICIOUS_HOSTINGS h st2
           in case rule_subdomain h st3 of
                Inl e \<Rightarrow> Inl e
              | Inr st4 \<Rightarrow>
                  (let st5 = rule_punycode h st4;
                       st6 = rule_shortener SHORTENERS u st5;
                       st7 = rule_keyword PHISH_KEYWORDS u st6;
                       sc = max 0 (min 100 (fst st7))
                   in Inr \<lparr>url = u, host = h, score = sc, level = level_of sc,
                           reasons = snd st7, ts = now\<rparr>)))"

subsection \<open>Routes: the handler of /api/check_link\<close>









subsection \<open>The rule table of the specification\<close>

text \<open>
  The specification describes the classifier as ten rules, each with a trigger condition, a
  score and a reason, evaluated in a fixed order. These definitions follow its table; the
  theorems below compare them with \<open>classify_link\<close>.
\<close>

datatype rule = R1 | R2 | R3 | R4a | R4b | R4c | R4d | R5 | R6 | R7

definition rule_order :: "rule list" where
  "rule_order = [R1, R2, R3, R4a, R4b, R4c, R4d, R5, R6, R7]"

fun delta :: "rule \<Rightarrow> int" where
  "delta R1 = 40"
| "delta R2 = 12"
| "delta R3 = 35"
| "delta R4a = 15"
| "delta R4b = 12"
| "delta R4c = 18"
| "delta R4d = 40"
| "delta R5 = 25"
| "delta R6 = 30"
| "delta R7 = 15"

definition labels_of :: "string \<Rightarrow> string list" where
  \<comment> \<open>the dot-separated labels of a host; the empty host has none\<close>
  "labels_of h = (if h \<noteq> [] then split h (CHR ''.'') else [])"

definition subdomain_of :: "string \<Rightarrow> string" where
  \<comment> \<open>the subdomain portion: all labels except the last two\<close>
  "subdomain_of h = join ''.'' (drop_last2 (labels_of h))"

definition sld_of :: "string \<Rightarrow> string" where
  \<comment> \<open>the second-level-domain label: the one before the last\<close>
  "sld_of h = (let ls = labels_of h in if length ls \<ge> 2 then ls ! (length ls - 2) else [])"

definition on_platform :: "string \<Rightarrow> string \<Rightarrow> bool" where
  \<comment> \<open>the host equals the platform or is a subdomain of it\<close>
  "on_platform h eh = (h = eh \<or> endswith h (''.'' @ eh))"

definition brand_hit :: "string \<Rightarrow> string \<Rightarrow> bool" where
  \<comment> \<open>the brand is in the lowercased subdomain and is not the second-level-domain label\<close>
  "brand_hit h b = (contains (lower (subdomain_of h)) b \<and> b \<noteq> sld_of h)"

fun fires :: "rule \<Rightarrow> string \<Rightarrow> string \<Rightarrow> bool" where
  \<comment> \<open>\<open>fires \<rho> h u\<close>: the trigger condition of rule \<open>\<rho>\<close> on the host \<open>h\<close> and the raw url \<open>u\<close>\<close>
  "fires R1 h u = IP_RE_search h"
| "fires R2 h u = port_search u"
| "fires R3 h u = list_ex (on_platform h) SUSPICIOUS_HOSTINGS"
| "fires R4a h u = (length (labels_of h) \<ge> 3 \<and> length (subdomain_of h) > 30)"
| "fires R4b h u = (length (labels_of h) \<ge> 3 \<and> count_char (subdomain_of h) (CHR ''-'') \<ge> 2)"
| "fires R4c h u =
     (length (labels_of h) \<ge> 3 \<and>
      length (filter (\<lambda>t. t \<noteq> []) (split_where is_sep (subdomain_of h))) \<ge> 3)"
| "fires R4d h u = (length (labels_of h) \<ge> 3 \<and> list_ex (brand_hit h) BRAND_TOKENS)"
| "fires R5 h u = contains h ''xn--''"
| "fires R6 h u = list_ex (contains (lower u)) SHORTENERS"
| "fires R7 h u = list_ex (contains (lower u)) PHISH_KEYWORDS"

definition first_match :: "(string \<Rightarrow> bool) \<Rightarrow> string list \<Rightarrow> string" where
  \<comment> \<open>the first candidate of the set that matches, in the order of the set\<close>
  "first_match P xs = (case find P xs of None \<Rightarrow> [] | Some x \<Rightarrow> x)"

fun reason_of :: "rule \<Rightarrow> string \<Rightarrow> string \<Rightarrow> string" where
  "reason_of R1 h u = ''Direct IP address used in host (not a normal domain)''"
| "reason_of R2 h u = ''Explicit port present in URL (uncommon for legitimate sites)''"
| "reason_of R3 h u =
     ''Hosted on ephemeral/third-party platform: '' @ first_match (on_platform h) SUSPICIOUS_HOSTINGS"
| "reason_of R4a h u = ''Very long subdomain (unusually long host label)''"
| "reason_of R4b h u = ''Multiple hyphens in subdomain (common in phishing hosts)''"
| "reason_of R4c h u = ''Multi-word / token-rich subdomain (likely not a normal brand hostname)''"
| "reason_of R4d h u =
     ''Brand impersonation detected: '' @ quoted (first_match (brand_hit h) BRAND_TOKENS) @
     '' appears in subdomain while parent domain is not '' @
     quoted (first_match (brand_hit h) BRAND_TOKENS)"
| "reason_of R5 h u = ''Punycode/IDN detected (possible homoglyph / homograph attack)''"
| "reason_of R6 h u = ''Uses known link shortener: '' @ first_match (contains (lower u)) SHORTENERS"
| "reason_of R7 h u =
     ''Contains phishing-related keyword: '' @ quoted (first_match (contains (lower u)) PHISH_KEYWORDS)"

definition fired :: "string \<Rightarrow> string \<Rightarrow> rule list" where
  \<comment> \<open>the rules that fire, in the evaluation order\<close>
  "fired h u = filter (\<lambda>\<rho>. fires \<rho> h u) rule_order"

definition clamp :: "int \<Rightarrow> int" where
  \<comment> \<open>the clamp to the closed interval from 0 to 100\<close>
  "clamp n = (if n < 0 then 0 else if n > 100 then 100 else n)"

definition step :: "string \<Rightarrow> string \<Rightarrow> tally \<Rightarrow> rule \<Rightarrow> tally" where
  \<comment> \<open>one rule: its score and its reason when it fires, nothing otherwise\<close>
  "step h u st \<rho> = (if fires \<rho> h u then hit (delta \<rho>) (reason_of \<rho> h u) st else st)"

section \<open>Auxiliary facts\<close>


lemma split_where_nonempty: "split_where P s \<noteq> []"
  by (induction s) (auto split: list.splits)

lemma hd_split_where: "hd (split_where P s) = takeWhile (\<lambda>c. \<not> P c) s"
  by (induction s) (auto split: list.splits simp: split_where_nonempty)

lemma getitem_0: "xs \<noteq> [] \<Longrightarrow> getitem xs 0 = Inr (hd xs)"
  by (cases xs) (simp_all add: getitem_def)

lemma getitem_minus2: "length xs \<ge> 2 \<Longrightarrow> getitem xs (- 2) = Inr (xs ! (length xs - 2))"
  by (simp add: getitem_def nat_diff_distrib')

lemma parse_hostname_cases:
  "parse_hostname up u =
     (if strip u = [] then Inr []
      else case up (if contains (strip u) ''://'' then strip u else ''https://'' @ strip u) of
             Inr hostname \<Rightarrow> Inr (lower (case hostname of None \<Rightarrow> [] | Some h \<Rightarrow> h))
           | Inl e \<Rightarrow> Inr (lower (takeWhile (\<lambda>c. c \<noteq> CHR ''/'') (strip u))))"
  by (simp add: parse_hostname_def Let_def split_def getitem_0 split_where_nonempty
      hd_split_where split: sum.splits)

lemma parse_hostname_total: "\<exists>h. parse_hostname up u = Inr h"
  by (simp add: parse_hostname_cases split: sum.splits)

lemma rule_ip_step: "rule_ip h st = step h u st R1"
  by (simp add: rule_ip_def step_def)

lemma rule_port_step: "rule_port u st = step h u st R2"
  by (simp add: rule_port_def step_def)

lemma on_platform_eq: "on_platform h = (\<lambda>eh. h = eh \<or> endswith h (''.'' @ eh))"
  by (rule ext) (simp add: on_platform_def)

lemma rule_hosting_find:
  "rule_hosting ehs h st =
     (if list_ex (on_platform h) ehs
      then hit 35 (''Hosted on ephemeral/third-party platform: '' @ first_match (on_platform h) ehs) st
      else st)"
  by (induction ehs) (auto simp: first_match_def on_platform_eq)

lemma rule_hosting_step: "rule_hosting SUSPICIOUS_HOSTINGS h st = step h u st R3"
  by (simp add: rule_hosting_find step_def)

lemma rule_brand_find:
  "rule_brand bs low_sub sld st =
     (if list_ex (\<lambda>b. contains low_sub b \<and> b \<noteq> sld) bs
      then hit 40 (''Brand impersonation detected: '' @
                   quoted (first_match (\<lambda>b. contains low_sub b \<and> b \<noteq> sld) bs) @
                   '' appears in subdomain while parent domain is not '' @
                   quoted (first_match (\<lambda>b. contains low_sub b \<and> b \<noteq> sld) bs)) st
      else st)"
  by (induction bs) (auto simp: first_match_def)

lemma rule_shortener_find:
  "rule_shortener ss u st =
     (if list_ex (contains (lower u)) ss
      then hit 30 (''Uses known link shortener: '' @ first_match (contains (lower u)) ss) st
      else st)"
  by (induction ss) (auto simp: first_match_def)

lemma rule_keyword_find:
  "rule_keyword ks u st =
     (if list_ex (contains (lower u)) ks
      then hit 15 (''Contains phishing-related keyword: '' @
                   quoted (first_match (contains (lower u)) ks)) st
      else st)"
  by (induction ks) (auto simp: first_match_def)

lemma rule_shortener_step: "rule_shortener SHORTENERS u st = step h u st R6"
  by (simp add: rule_shortener_find step_def)

lemma rule_keyword_step: "rule_keyword PHISH_KEYWORDS u st = step h u st R7"
  by (simp add: rule_keyword_find step_def)

lemma rule_punycode_step: "rule_punycode h st = step h u st R5"
  by (simp add: rule_punycode_def step_def)

lemma brand_hit_eq: "brand_hit h = (\<lambda>b. contains (lower (subdomain_of h)) b \<and> b \<noteq> sld_of h)"
  by (rule ext) (simp add: brand_hit_def)

lemma rule_subdomain_step:
  "rule_subdomain h st = Inr (step h u (step h u (step h u (step h u st R4a) R4b) R4c) R4d)"
proof (cases "length (labels_of h) \<ge> 3")
  case False
  then show ?thesis
    unfolding rule_subdomain_def labels_of_def [symmetric]
    by (simp add: step_def)
next
  case True
  then have sld: "getitem (labels_of h) (- 2) = Inr (sld_of h)"
    by (simp add: getitem_minus2 sld_of_def Let_def)
  from True sld show ?thesis
    unfolding rule_subdomain_def labels_of_def [symmetric]
    by (simp add: step_def Let_def rule_brand_find brand_hit_eq subdomain_of_def [symmetric])
qed

lemma foldl_step:
  "foldl (step h u) st rs =
     (fst st + sum_list (map delta (filter (\<lambda>\<rho>. fires \<rho> h u) rs)),
      snd st @ map (\<lambda>\<rho>. reason_of \<rho> h u) (filter (\<lambda>\<rho>. fires \<rho> h u) rs))"
  by (induction rs arbitrary: st) (simp_all add: step_def hit_def)

lemma clamp_max_min: "max 0 (min 100 n) = clamp n"
  by (simp add: clamp_def)

lemma classify_link_fired:
  assumes "parse_hostname up u = Inr h"
  shows "classify_link up now u =
           Inr \<lparr>url = u, host = h, score = clamp (sum_list (map delta (fired h u))),
                level = level_of (clamp (sum_list (map delta (fired h u)))),
                reasons = map (\<lambda>\<rho>. reason_of \<rho> h u) (fired h u), ts = now\<rparr>"
proof -
  have run: "foldl (step h u) (0, []) rule_order =
      step h u (step h u (step h u (step h u (step h u (step h u (step h u
        (step h u (step h u (step h u (0, []) R1) R2) R3) R4a) R4b) R4c) R4d) R5) R6) R7"
    by (simp add: rule_order_def)
  have sub: "rule_subdomain h st = Inr (step h u (step h u (step h u (step h u st R4a) R4b) R4c) R4d)" for st
    by (rule rule_subdomain_step)
  have "classify_link up now u =
      (let st = foldl (step h u) (0, []) rule_order; sc = clamp (fst st)
       in Inr \<lparr>url = u, host = h, score = sc, level = level_of sc, reasons = snd st, ts = now\<rparr>)"
    unfolding run
    by (simp add: classify_link_def assms Let_def sub clamp_max_min
        rule_ip_step [of h _ u] rule_port_step [of u _ h] rule_hosting_step [of h _ u]
        rule_punycode_step [of h _ u] rule_shortener_step [of u _ h] rule_keyword_step [of u _ h])
  then show ?thesis
    by (simp add: foldl_step fired_def Let_def)
qed


lemma delta_pos: "0 < delta \<rho>"
  by (cases \<rho>) simp_all

lemma sum_delta_nonneg: "0 \<le> sum_list (map delta rs)"
  by (induction rs) (simp_all add: add_nonneg_nonneg less_imp_le [OF delta_pos])

lemma sum_delta_zero_iff: "sum_list (map delta rs) = 0 \<longleftrightarrow> rs = []"
proof (cases rs)
  case Nil
  then show ?thesis by simp
next
  case (Cons r rs')
  have "0 < delta r" by (rule delta_pos)
  moreover have "0 \<le> sum_list (map delta rs')" by (rule sum_delta_nonneg)
  ultimately show ?thesis using Cons by simp
qed

lemma clamp_range: "0 \<le> clamp n \<and> clamp n \<le> 100"
  by (simp add: clamp_def)

lemma clamp_nonneg: "0 \<le> n \<Longrightarrow> clamp n = min 100 n"
  by (simp add: clamp_def)

lemma startswith_append: "startswith s p \<Longrightarrow> startswith (s @ t) p"
  by (induction s p rule: startswith.induct) simp_all

lemma contains_Nil: "contains s []"
  by (cases s) simp_all

lemma contains_append: "contains s p \<Longrightarrow> contains (s @ t) p"
proof (induction s)
  case Nil
  then show ?case by (simp add: contains_Nil)
next
  case (Cons a s)
  from Cons.prems have "startswith (a # s) p \<or> contains s p" by simp
  then show ?case
  proof
    assume "startswith (a # s) p"
    then have "startswith ((a # s) @ t) p" by (rule startswith_append)
    then show ?thesis by simp
  next
    assume "contains s p"
    then have "contains (s @ t) p" by (rule Cons.IH)
    then show ?thesis by simp
  qed
qed

lemma port_search_append: "port_search u \<Longrightarrow> port_search (u @ s)"
  by (induction u rule: port_search.induct) auto

lemma lower_append: "lower (u @ s) = lower u @ lower s"
  by (simp add: lower_def)

lemma list_ex_mono: "list_ex P xs \<Longrightarrow> (\<And>x. P x \<Longrightarrow> Q x) \<Longrightarrow> list_ex Q xs"
  by (induction xs) auto

lemma fires_append: "fires \<rho> h u \<Longrightarrow> fires \<rho> h (u @ s)"
proof (cases \<rho>)
  case R2
  then show "fires \<rho> h u \<Longrightarrow> fires \<rho> h (u @ s)"
    by (simp add: port_search_append)
next
  case R6
  then show "fires \<rho> h u \<Longrightarrow> fires \<rho> h (u @ s)"
    by (auto simp: lower_append intro: contains_append elim: list_ex_mono)
next
  case R7
  then show "fires \<rho> h u \<Longrightarrow> fires \<rho> h (u @ s)"
    by (auto simp: lower_append intro: contains_append elim: list_ex_mono)
qed simp_all

lemma sum_delta_filter_mono:
  "(\<And>\<rho>. P \<rho> \<Longrightarrow> Q \<rho>) \<Longrightarrow>
   sum_list (map delta (filter P rs)) \<le> sum_list (map delta (filter Q rs))"
proof (induction rs)
  case Nil
  show ?case by simp
next
  case (Cons r rs)
  have "0 < delta r" by (rule delta_pos)
  with Cons show ?case by auto
qed

lemma clamp_mono: "a \<le> b \<Longrightarrow> clamp a \<le> clamp b"
  by (simp add: clamp_def)




section \<open>The claims\<close>

subsection \<open>Score range and level thresholds\<close>

text \<open>
  Claim C1. For every string \<open>u\<close>, whatever \<open>urlparse\<close> does and whatever the clock reads,
  \<open>classify_link\<close> returns a result whose score lies between 0 and 100, and whose level is
  HIGH when the score is at least 70, MEDIUM when it is at least 35 and below 70, and SAFE
  when it is below 35.
\<close>

theorem score_range_and_level:
  "\<exists>r. classify_link up now u = Inr r \<and> 0 \<le> score r \<and> score r \<le> 100 \<and>
       (score r \<ge> 70 \<longrightarrow> level r = ''HIGH'') \<and>
       (35 \<le> score r \<and> score r < 70 \<longrightarrow> level r = ''MEDIUM'') \<and>
       (score r < 35 \<longrightarrow> level r = ''SAFE'')"
proof -
  obtain h where h: "parse_hostname up u = Inr h"
    using parse_hostname_total by blast
  show ?thesis
    by (simp add: classify_link_fired [OF h] clamp_range level_of_def)
qed

text \<open>One link for each of the three levels.\<close>

theorem score_range_and_level_witness:
  "(\<exists>r. classify_link urlparse_hostname 0 ''https://secure-login-verify.trycloudflare.com'' = Inr r \<and>
        0 \<le> score r \<and> score r \<le> 100 \<and> 70 \<le> score r \<and> level r = ''HIGH'') \<and>
   (\<exists>r. classify_link urlparse_hostname 0 ''http://192.168.1.10/verify'' = Inr r \<and>
        0 \<le> score r \<and> score r \<le> 100 \<and> 35 \<le> score r \<and> score r < 70 \<and> level r = ''MEDIUM'') \<and>
   (\<exists>r. classify_link urlparse_hostname 0 ''https://bit.ly/abc123'' = Inr r \<and>
        0 \<le> score r \<and> score r \<le> 100 \<and> score r < 35 \<and> level r = ''SAFE'')"
proof (intro conjI)
  have e: "score (projr (classify_link urlparse_hostname 0
              ''https://secure-login-verify.trycloudflare.com'')) = 80"
    by code_simp
  from score_range_and_level [of urlparse_hostname 0 "''https://secure-login-verify.trycloudflare.com''"]
  obtain r where r: "classify_link urlparse_hostname 0 ''https://secure-login-verify.trycloudflare.com'' = Inr r"
    and range: "0 \<le> score r" "score r \<le> 100"
    and hi: "score r \<ge> 70 \<longrightarrow> level r = ''HIGH''"
    by blast
  from r e have "score r = 80" by simp
  with hi range r
  show "\<exists>r. classify_link urlparse_hostname 0 ''https://secure-login-verify.trycloudflare.com'' = Inr r \<and>
        0 \<le> score r \<and> score r \<le> 100 \<and> 70 \<le> score r \<and> level r = ''HIGH''"
    by simp
next
  have e: "score (projr (classify_link urlparse_hostname 0 ''http://192.168.1.10/verify'')) = 55"
    by code_simp
  from score_range_and_level [of urlparse_hostname 0 "''http://192.168.1.10/verify''"]
  obtain r where r: "classify_link urlparse_hostname 0 ''http://192.168.1.10/verify'' = Inr r"
    and range: "0 \<le> score r" "score r \<le> 100"
    and mid: "35 \<le> score r \<and> score r < 70 \<longrightarrow> level r = ''MEDIUM''"
    by blast
  from r e have "score r = 55" by simp
  with mid range r
  show "\<exists>r. classify_link urlparse_hostname 0 ''http://192.168.1.10/verify'' = Inr r \<and>
        0 \<le> score r \<and> score r \<le> 100 \<and> 35 \<le> score r \<and> score r < 70 \<and> level r = ''MEDIUM''"
    by simp
next
  have e: "score (projr (classify_link urlparse_hostname 0 ''https://bit.ly/abc123'')) = 30"
    by code_simp
  from score_range_and_level [of urlparse_hostname 0 "''https://bit.ly/abc123''"]
  obtain r where r: "classify_link urlparse_hostname 0 ''https://bit.ly/abc123'' = Inr r"
    and range: "0 \<le> score r" "score r \<le> 100"
    and lo: "score r < 35 \<longrightarrow> level r = ''SAFE''"
    by blast
  from r e have "score r = 30" by simp
  with lo range r
  show "\<exists>r. classify_link urlparse_hostname 0 ''https://bit.ly/abc123'' = Inr r \<and>
        0 \<le> score r \<and> score r \<le> 100 \<and> score r < 35 \<and> level r = ''SAFE''"
    by simp
qed

subsection \<open>The stacking example\<close>

text \<open>
  Claim C2 says that \<open>https://secure-login-verify.trycloudflare.com\<close> fires exactly rules
  3, 4c and 7, the last with the keyword login, for a score of 68 and the level MEDIUM.
  The subdomain \<open>secure-login-verify\<close> has two hyphens, so rule 4b fires as well and adds
  12, and \<open>verify\<close> comes before \<open>login\<close> in PHISH_KEYWORDS, so rule 7 names \<open>verify\<close>.
  The fired rules are not 3, 4c, 7, the score is not 68 and the level is not MEDIUM.
\<close>

theorem stacking_example_counterexample:
  "fired (host (projr (classify_link urlparse_hostname 0 ''https://secure-login-verify.trycloudflare.com'')))
      ''https://secure-login-verify.trycloudflare.com'' \<noteq> [R3, R4c, R7] \<and>
   score (projr (classify_link urlparse_hostname 0 ''https://secure-login-verify.trycloudflare.com'')) \<noteq> 68 \<and>
   level (projr (classify_link urlparse_hostname 0 ''https://secure-login-verify.trycloudflare.com''))
      \<noteq> ''MEDIUM'' \<and>
   reasons (projr (classify_link urlparse_hostname 0 ''https://secure-login-verify.trycloudflare.com'')) ! 3
      \<noteq> ''Contains phishing-related keyword: '' @ quoted ''login''"
  by code_simp

text \<open>
  Claim C2, amended. The link fires exactly rules 3 (ephemeral hosting, +35), 4b (two
  hyphens in the subdomain, +12), 4c (three tokens, +18) and 7 (keyword \<open>verify\<close>, +15):
  the score is 80 and the level HIGH.
\<close>

theorem stacking_example:
  "classify_link urlparse_hostname now ''https://secure-login-verify.trycloudflare.com'' =
     Inr \<lparr>url = ''https://secure-login-verify.trycloudflare.com'',
          host = ''secure-login-verify.trycloudflare.com'',
          score = 80,
          level = ''HIGH'',
          reasons =
            [''Hosted on ephemeral/third-party platform: trycloudflare.com'',
             ''Multiple hyphens in subdomain (common in phishing hosts)'',
             ''Multi-word / token-rich subdomain (likely not a normal brand hostname)'',
             ''Contains phishing-related keyword: '' @ quoted ''verify''],
          ts = now\<rparr> \<and>
   fired ''secure-login-verify.trycloudflare.com'' ''https://secure-login-verify.trycloudflare.com''
     = [R3, R4b, R4c, R7] \<and>
   sum_list (map delta [R3, R4b, R4c, R7]) = 80"
  by code_simp

theorem stacking_example_witness:
  "score (projr (classify_link urlparse_hostname 0 ''https://secure-login-verify.trycloudflare.com'')) = 80 \<and>
   level (projr (classify_link urlparse_hostname 0 ''https://secure-login-verify.trycloudflare.com'')) = ''HIGH'' \<and>
   length (reasons (projr (classify_link urlparse_hostname 0
      ''https://secure-login-verify.trycloudflare.com''))) = 4"
  using stacking_example [of 0] by simp


subsection \<open>No exception leaves the classifier\<close>

text \<open>
  Claim C3. \<open>parse_hostname\<close> and \<open>classify_link\<close> return a value for every string, the
  empty one and those with characters beyond ASCII included, whatever \<open>urlparse\<close> does: an
  exception of \<open>urlparse\<close> or of \<open>.hostname\<close> is caught by \<open>except Exception\<close>, the index
  \<open>[0]\<close> of the fallback and the index \<open>[-2]\<close> of the labels are always in range. When the
  stripped input is not empty and the parse raises, the host is the lowercased part of the
  stripped input before its first slash.
\<close>

theorem classify_link_never_raises:
  "(\<exists>h. parse_hostname up u = Inr h) \<and> (\<exists>r. classify_link up now u = Inr r) \<and>
   (\<forall>e. strip u \<noteq> [] \<and>
        up (if contains (strip u) ''://'' then strip u else ''https://'' @ strip u) = Inl e \<longrightarrow>
        parse_hostname up u = Inr (lower (takeWhile (\<lambda>c. c \<noteq> CHR ''/'') (strip u))))"
proof -
  obtain h where h: "parse_hostname up u = Inr h"
    using parse_hostname_total by blast
  have "\<exists>r. classify_link up now u = Inr r"
    by (simp add: classify_link_fired [OF h])
  moreover have "\<forall>e. strip u \<noteq> [] \<and>
        up (if contains (strip u) ''://'' then strip u else ''https://'' @ strip u) = Inl e \<longrightarrow>
        parse_hostname up u = Inr (lower (takeWhile (\<lambda>c. c \<noteq> CHR ''/'') (strip u)))"
    by (auto simp: parse_hostname_cases)
  ultimately show ?thesis using h by blast
qed

text \<open>
  \<open>urlparse("http://[abc/Login")\<close> raises ValueError (a bracket that is never closed), and
  the host falls back to \<open>http:\<close>, what the stripped input has before its first slash.
\<close>

theorem classify_link_never_raises_witness:
  "urlparse_hostname ''http://[abc/Login'' = Inl ValueError \<and>
   parse_hostname urlparse_hostname '' http://[abc/Login '' = Inr ''http:'' \<and>
   (\<exists>r. classify_link urlparse_hostname 0 '' http://[abc/Login '' = Inr r)"
proof -
  have raises: "strip '' http://[abc/Login '' \<noteq> [] \<and>
      urlparse_hostname (if contains (strip '' http://[abc/Login '') ''://''
                         then strip '' http://[abc/Login ''
                         else ''https://'' @ strip '' http://[abc/Login '') = Inl ValueError"
    by code_simp
  have direct: "urlparse_hostname ''http://[abc/Login'' = Inl ValueError"
    by code_simp
  have piece: "lower (takeWhile (\<lambda>c. c \<noteq> CHR ''/'') (strip '' http://[abc/Login '')) = ''http:''"
    by code_simp
  from classify_link_never_raises [of urlparse_hostname "'' http://[abc/Login ''" 0] raises
  have "parse_hostname urlparse_hostname '' http://[abc/Login '' =
          Inr (lower (takeWhile (\<lambda>c. c \<noteq> CHR ''/'') (strip '' http://[abc/Login '')))"
    and "\<exists>r. classify_link urlparse_hostname 0 '' http://[abc/Login '' = Inr r"
    by blast+
  with piece direct show ?thesis
    by simp
qed

subsection \<open>Determinism\<close>

text \<open>
  Claim C4. The clock is the only thing a call reads besides its argument: two calls on the
  same string, at any two clock readings \<open>t1\<close> and \<open>t2\<close>, both return, and their results
  have the same host, score, level and reasons.
\<close>

theorem classify_link_deterministic:
  "\<exists>r1 r2. classify_link up t1 u = Inr r1 \<and> classify_link up t2 u = Inr r2 \<and>
     host r1 = host r2 \<and> score r1 = score r2 \<and> level r1 = level r2 \<and> reasons r1 = reasons r2"
proof -
  obtain h where h: "parse_hostname up u = Inr h"
    using parse_hostname_total by blast
  show ?thesis
    by (simp add: classify_link_fired [OF h])
qed

theorem classify_link_deterministic_witness:
  "\<exists>r1 r2. classify_link urlparse_hostname 1700000000 ''https://bit.ly/abc123'' = Inr r1 \<and>
     classify_link urlparse_hostname 1700000001 ''https://bit.ly/abc123'' = Inr r2 \<and>
     host r1 = host r2 \<and> score r1 = score r2 \<and> level r1 = level r2 \<and> reasons r1 = reasons r2"
  by (rule classify_link_deterministic)

subsection \<open>Brand impersonation\<close>

text \<open>
  Claim C5. On \<open>https://paypal.com\<close> rule 4d does not fire: the host has two labels, and no
  rule fires at all. On \<open>https://paypal.security-check.net/login\<close> rule 4d fires, for the
  brand \<open>paypal\<close> in the subdomain under the second-level-domain label
  \<open>security-check\<close>, and rule 7 fires for the keyword \<open>login\<close>; these are the two rules that
  fire, and the score is 55.
\<close>

theorem brand_impersonation_examples:
  "classify_link urlparse_hostname now ''https://paypal.com'' =
     Inr \<lparr>url = ''https://paypal.com'', host = ''paypal.com'', score = 0, level = ''SAFE'',
          reasons = [], ts = now\<rparr> \<and>
   \<not> fires R4d ''paypal.com'' ''https://paypal.com'' \<and>
   classify_link urlparse_hostname now ''https://paypal.security-check.net/login'' =
     Inr \<lparr>url = ''https://paypal.security-check.net/login'',
          host = ''paypal.security-check.net'', score = 55, level = ''MEDIUM'',
          reasons =
            [''Brand impersonation detected: '' @ quoted ''paypal'' @
               '' appears in subdomain while parent domain is not '' @ quoted ''paypal'',
             ''Contains phishing-related keyword: '' @ quoted ''login''],
          ts = now\<rparr> \<and>
   fired ''paypal.security-check.net'' ''https://paypal.security-check.net/login'' = [R4d, R7] \<and>
   subdomain_of ''paypal.security-check.net'' = ''paypal'' \<and>
   sld_of ''paypal.security-check.net'' = ''security-check''"
  by code_simp

theorem brand_impersonation_examples_witness:
  "reasons (projr (classify_link urlparse_hostname 0 ''https://paypal.com'')) = [] \<and>
   length (reasons (projr (classify_link urlparse_hostname 0
     ''https://paypal.security-check.net/login''))) = 2 \<and>
   score (projr (classify_link urlparse_hostname 0 ''https://paypal.security-check.net/login'')) = 55"
  using brand_impersonation_examples [of 0] by simp

subsection \<open>The empty string\<close>

text \<open>
  Claim C6. On the empty string \<open>classify_link\<close> returns the host \<open>""\<close>, the score 0, the
  level SAFE and no reasons, without calling \<open>urlparse\<close>; no rule fires.
\<close>

theorem empty_string_is_safe:
  "classify_link up now '''' =
     Inr \<lparr>url = '''', host = '''', score = 0, level = ''SAFE'', reasons = [], ts = now\<rparr> \<and>
   fired '''' '''' = []"
  by code_simp

theorem empty_string_is_safe_witness:
  "classify_link urlparse_hostname 0 '''' =
     Inr \<lparr>url = '''', host = '''', score = 0, level = ''SAFE'', reasons = [], ts = 0\<rparr> \<and>
   fired '''' '''' = []"
  by (rule empty_string_is_safe)


subsection \<open>The score as the clamped sum over the rules that fire\<close>

text \<open>
  Claim C7. For every string, the score is the clamp to the interval from 0 to 100 of the
  sum of the scores of the rules that fire; the reasons are the reasons of the rules that
  fire, one for each, that of a rule with a candidate set naming its first match; and they
  stand in the evaluation order 1, 2, 3, 4a, 4b, 4c, 4d, 5, 6, 7, in which each rule occurs
  once.
\<close>

theorem score_is_clamped_sum_of_fired:
  "\<exists>r. classify_link up now u = Inr r \<and>
       score r = clamp (sum_list (map delta (fired (host r) u))) \<and>
       length (reasons r) = length (fired (host r) u) \<and>
       reasons r = map (\<lambda>\<rho>. reason_of \<rho> (host r) u) (fired (host r) u) \<and>
       fired (host r) u =
         filter (\<lambda>\<rho>. fires \<rho> (host r) u) [R1, R2, R3, R4a, R4b, R4c, R4d, R5, R6, R7]"
proof -
  obtain h where h: "parse_hostname up u = Inr h"
    using parse_hostname_total by blast
  show ?thesis
    by (simp add: classify_link_fired [OF h] fired_def rule_order_def)
qed

text \<open>
  A link on which eight rules fire: their scores add up to 187, the score is 100, and there
  are eight reasons.
\<close>

theorem score_is_clamped_sum_of_fired_witness:
  "\<exists>r. classify_link urlparse_hostname 0
          ''http://paypal-secure-login.192.168.1.10.ngrok.io:8080/verify'' = Inr r \<and>
       fired (host r) ''http://paypal-secure-login.192.168.1.10.ngrok.io:8080/verify'' =
         [R1, R2, R3, R4a, R4b, R4c, R4d, R7] \<and>
       sum_list (map delta (fired (host r)
         ''http://paypal-secure-login.192.168.1.10.ngrok.io:8080/verify'')) = 187 \<and>
       score r = 100 \<and> length (reasons r) = 8"
proof -
  have hst: "host (projr (classify_link urlparse_hostname 0
      ''http://paypal-secure-login.192.168.1.10.ngrok.io:8080/verify'')) =
      ''paypal-secure-login.192.168.1.10.ngrok.io''"
    by code_simp
  have frd: "fired ''paypal-secure-login.192.168.1.10.ngrok.io''
      ''http://paypal-secure-login.192.168.1.10.ngrok.io:8080/verify'' =
      [R1, R2, R3, R4a, R4b, R4c, R4d, R7]"
    by code_simp
  from score_is_clamped_sum_of_fired
    [of urlparse_hostname 0 "''http://paypal-secure-login.192.168.1.10.ngrok.io:8080/verify''"]
  obtain r where r: "classify_link urlparse_hostname 0
        ''http://paypal-secure-login.192.168.1.10.ngrok.io:8080/verify'' = Inr r"
    and sc: "score r = clamp (sum_list (map delta (fired (host r)
        ''http://paypal-secure-login.192.168.1.10.ngrok.io:8080/verify'')))"
    and len: "length (reasons r) = length (fired (host r)
        ''http://paypal-secure-login.192.168.1.10.ngrok.io:8080/verify'')"
    by blast
  from r hst have "host r = ''paypal-secure-login.192.168.1.10.ngrok.io''"
    by simp
  with frd have f: "fired (host r) ''http://paypal-secure-login.192.168.1.10.ngrok.io:8080/verify'' =
      [R1, R2, R3, R4a, R4b, R4c, R4d, R7]"
    by simp
  from sc len have "score r = 100" and "length (reasons r) = 8"
    unfolding f by (simp_all add: clamp_def)
  with r f show ?thesis
    by simp
qed

subsection \<open>Appending to the link\<close>

text \<open>
  Claim C8. When appending \<open>s\<close> to \<open>u\<close> leaves the parsed host as it was, the score of
  \<open>u + s\<close> is at least the score of \<open>u\<close>: the rules on the host fire as before, and a rule
  on the raw string that fires on \<open>u\<close> fires on \<open>u + s\<close>.
\<close>

theorem score_monotone_under_suffix:
  assumes "parse_hostname up (u @ s) = parse_hostname up u"
  shows "\<exists>r r'. classify_link up now u = Inr r \<and> classify_link up now' (u @ s) = Inr r' \<and>
           score r \<le> score r'"
proof -
  obtain h where h: "parse_hostname up u = Inr h"
    using parse_hostname_total by blast
  with assms have h': "parse_hostname up (u @ s) = Inr h"
    by simp
  have "sum_list (map delta (fired h u)) \<le> sum_list (map delta (fired h (u @ s)))"
    unfolding fired_def by (rule sum_delta_filter_mono) (rule fires_append)
  then have "clamp (sum_list (map delta (fired h u))) \<le> clamp (sum_list (map delta (fired h (u @ s))))"
    by (rule clamp_mono)
  then show ?thesis
    by (simp add: classify_link_fired [OF h] classify_link_fired [OF h'])
qed

theorem score_monotone_under_suffix_witness:
  "parse_hostname urlparse_hostname (''https://example.com'' @ ''/verify'') =
     parse_hostname urlparse_hostname ''https://example.com'' \<and>
   (\<exists>r r'. classify_link urlparse_hostname 0 ''https://example.com'' = Inr r \<and>
      classify_link urlparse_hostname 1 (''https://example.com'' @ ''/verify'') = Inr r' \<and>
      score r \<le> score r')"
proof -
  have same: "parse_hostname urlparse_hostname (''https://example.com'' @ ''/verify'') =
     parse_hostname urlparse_hostname ''https://example.com''"
    by code_simp
  from score_monotone_under_suffix [OF same, of 0 1] same show ?thesis
    by blast
qed

subsection \<open>The handler rejects a blank url\<close>




subsection \<open>No reasons exactly when the score is zero\<close>

text \<open>
  Claim C10. For every string, the list of reasons is empty if and only if the score is 0.
  Every rule has a positive score and gives one reason, so the sum is never negative: the
  score is the smaller of 100 and the sum, and the lower bound of the clamp plays no part.
\<close>

theorem reasons_empty_iff_score_zero:
  "\<exists>r. classify_link up now u = Inr r \<and> (reasons r = [] \<longleftrightarrow> score r = 0) \<and>
       score r = min 100 (sum_list (map delta (fired (host r) u))) \<and>
       length (reasons r) = length (fired (host r) u) \<and> (\<forall>\<rho>. 0 < delta \<rho>)"
proof -
  obtain h where h: "parse_hostname up u = Inr h"
    using parse_hostname_total by blast
  have nn: "0 \<le> sum_list (map delta (fired h u))"
    by (rule sum_delta_nonneg)
  have "min 100 (sum_list (map delta (fired h u))) = 0 \<longleftrightarrow> fired h u = []"
    using sum_delta_zero_iff [of "fired h u"] nn by (auto simp: min_def)
  then show ?thesis
    by (simp add: classify_link_fired [OF h] clamp_nonneg [OF nn] delta_pos)
qed

theorem reasons_empty_iff_score_zero_witness:
  "(\<exists>r. classify_link urlparse_hostname 0 ''https://example.com'' = Inr r \<and>
        reasons r = [] \<and> score r = 0) \<and>
   (\<exists>r. classify_link urlparse_hostname 0 ''https://bit.ly/abc123'' = Inr r \<and>
        reasons r \<noteq> [] \<and> score r \<noteq> 0)"
proof (intro conjI)
  have e: "score (projr (classify_link urlparse_hostname 0 ''https://example.com'')) = 0"
    by code_simp
  from reasons_empty_iff_score_zero [of urlparse_hostname 0 "''https://example.com''"]
  obtain r where r: "classify_link urlparse_hostname 0 ''https://example.com'' = Inr r"
    and iff: "reasons r = [] \<longleftrightarrow> score r = 0"
    by blast
  from r e have "score r = 0" by simp
  with iff r show "\<exists>r. classify_link urlparse_hostname 0 ''https://example.com'' = Inr r \<and>
        reasons r = [] \<and> score r = 0"
    by simp
next
  have e: "score (projr (classify_link urlparse_hostname 0 ''https://bit.ly/abc123'')) = 30"
    by code_simp
  from reasons_empty_iff_score_zero [of urlparse_hostname 0 "''https://bit.ly/abc123''"]
  obtain r where r: "classify_link urlparse_hostname 0 ''https://bit.ly/abc123'' = Inr r"
    and iff: "reasons r = [] \<longleftrightarrow> score r = 0"
    by blast
  from r e have "score r = 30" by simp
  with iff r show "\<exists>r. classify_link urlparse_hostname 0 ''https://bit.ly/abc123'' = Inr r \<and>
        reasons r \<noteq> [] \<and> score r \<noteq> 0"
    by simp
qed

end
